theory Spec2Isabelle
  imports Main "HOL-Library.AList" "HOL-Library.Sublist" "HOL-Library.Char_ord" "HOL-Library.List_Lexorder"
begin

section \<open>Python strings\<close>

text \<open>
  Text is a list of characters; a character stands for a code point below 256. The
  string methods the converter calls are written out for that range.
\<close>

definition isspace_char :: "char \<Rightarrow> bool" where
  "isspace_char c =
     (let n = (of_char c :: nat)
      in (9 \<le> n \<and> n \<le> 13) \<or> (28 \<le> n \<and> n \<le> 32) \<or> n = 133 \<or> n = 160)"

definition strip :: "string \<Rightarrow> string" where
  "strip s = rev (dropWhile isspace_char (rev (dropWhile isspace_char s)))"

definition is_decimal_char :: "char \<Rightarrow> bool" where
  "is_decimal_char c = (let n = (of_char c :: nat) in 48 \<le> n \<and> n \<le> 57)"

text \<open>\<open>str.isdigit\<close> also accepts the superscript digits U+00B2, U+00B3 and U+00B9.\<close>

definition isdigit_char :: "char \<Rightarrow> bool" where
  "isdigit_char c =
     (let n = (of_char c :: nat) in (48 \<le> n \<and> n \<le> 57) \<or> n = 178 \<or> n = 179 \<or> n = 185)"

definition isdigit :: "string \<Rightarrow> bool" where
  "isdigit s = (s \<noteq> [] \<and> list_all isdigit_char s)"

datatype exn = OSError | ValueError | ImportError | CalledProcessError

definition digit_value :: "char \<Rightarrow> nat" where
  "digit_value c = of_char c - 48"

text \<open>
  \<open>int(s)\<close> on a string that passed \<open>isdigit\<close>: decimal digits are read in base ten,
  a superscript digit raises \<open>ValueError\<close>, and so does a string of more than 4300
  digits (the interpreter's default limit on integer strings).
\<close>

definition int_max_str_digits :: nat where
  "int_max_str_digits = 4300"

definition py_int :: "string \<Rightarrow> exn + nat" where
  "py_int s =
     (if s \<noteq> [] \<and> list_all is_decimal_char s \<and> length s \<le> int_max_str_digits
      then Inr (foldl (\<lambda>acc c. 10 * acc + digit_value c) 0 s)
      else Inl ValueError)"

fun split_on :: "char \<Rightarrow> string \<Rightarrow> string list" where
  "split_on sep [] = [[]]"
| "split_on sep (c # cs) =
     (if c = sep then [] # split_on sep cs
      else (case split_on sep cs of [] \<Rightarrow> [[c]] | l # ls \<Rightarrow> (c # l) # ls))"

definition startswith :: "string \<Rightarrow> string \<Rightarrow> bool" where
  "startswith s p = (take (length p) s = p)"

definition endswith :: "string \<Rightarrow> string \<Rightarrow> bool" where
  "endswith s p = (length p \<le> length s \<and> drop (length s - length p) s = p)"

definition lower_char :: "char \<Rightarrow> char" where
  "lower_char c =
     (let n = (of_char c :: nat)
      in if (65 \<le> n \<and> n \<le> 90) \<or> (192 \<le> n \<and> n \<le> 222 \<and> n \<noteq> 215) then char_of (n + 32) else c)"

definition lower :: "string \<Rightarrow> string" where
  "lower s = map lower_char s"

text \<open>\<open>s.replace(old, new)\<close>: every non-overlapping occurrence, from the left.\<close>

function replace :: "string \<Rightarrow> string \<Rightarrow> string \<Rightarrow> string" where
  "replace s old new =
     (if old = [] then new @ concat (map (\<lambda>c. c # new) s)
      else if s = [] then []
      else if take (length old) s = old then new @ replace (drop (length old) s) old new
      else hd s # replace (tl s) old new)"
  by pat_completeness auto
termination
  by (relation "measure (\<lambda>(s, old, new). length s)") auto

declare replace.simps [simp del]

text \<open>\<open>str(n)\<close> for a non-negative integer, \<open>str(i)\<close> for any integer, and the format \<open>04d\<close>.\<close>

fun str_nat :: "nat \<Rightarrow> string" where
  "str_nat n = (if n < 10 then [char_of (48 + n)] else str_nat (n div 10) @ [char_of (48 + n mod 10)])"

declare str_nat.simps [simp del]

definition str_int :: "int \<Rightarrow> string" where
  "str_int i = (if i < 0 then CHR ''-'' # str_nat (nat (- i)) else str_nat (nat i))"

definition format_04d :: "nat \<Rightarrow> string" where
  "format_04d n = replicate (4 - length (str_nat n)) CHR ''0'' @ str_nat n"

section \<open>Paths\<close>

text \<open>\<open>os.path\<close> is taken in its POSIX form, with \<open>/\<close> as the separator.\<close>

definition sep :: char where
  "sep = CHR ''/''"

definition path_join :: "string \<Rightarrow> string \<Rightarrow> string" where
  "path_join a b =
     (if startswith b [sep] then b
      else if a = [] \<or> endswith a [sep] then a @ b
      else a @ [sep] @ b)"

text \<open>\<open>str.rfind\<close> for one character: the last index, or \<open>-1\<close>.\<close>

fun rfind :: "string \<Rightarrow> char \<Rightarrow> int" where
  "rfind [] c = -1"
| "rfind (x # xs) c =
     (let r = rfind xs c in if r \<ge> 0 then r + 1 else if x = c then 0 else -1)"

definition splitext :: "string \<Rightarrow> string \<times> string" where
  "splitext p =
     (let sepIndex = rfind p sep; dotIndex = rfind p CHR ''.''
      in if dotIndex > sepIndex then
           (if list_ex (\<lambda>c. c \<noteq> CHR ''.'') (take (nat (dotIndex - (sepIndex + 1))) (drop (nat (sepIndex + 1)) p))
            then (take (nat dotIndex) p, drop (nat dotIndex) p)
            else (p, []))
         else (p, []))"

text \<open>
  \<open>os.path.relpath(path, start)\<close>: both paths are made absolute against the working
  directory and normalised, component by component.
\<close>

definition norm_step :: "string list \<Rightarrow> string \<Rightarrow> string list" where
  "norm_step new_comps part =
     (if part = [] \<or> part = ''.'' then new_comps
      else if part \<noteq> ''..'' then new_comps @ [part]
      else butlast new_comps)"

definition abs_comps :: "string \<Rightarrow> string \<Rightarrow> string list" where
  "abs_comps cwd p = foldl norm_step [] (split_on sep (path_join cwd p))"

definition relpath :: "string \<Rightarrow> string \<Rightarrow> string \<Rightarrow> exn + string" where
  "relpath cwd path start =
     (if path = [] then Inl ValueError
      else
        (let start_list = abs_comps cwd start;
             path_list = abs_comps cwd path;
             i = length (longest_common_prefix start_list path_list);
             rel_list = replicate (length start_list - i) ''..'' @ drop i path_list
         in if rel_list = [] then Inr ''.'' else Inr (foldl path_join (hd rel_list) (tl rel_list))))"

section \<open>External processes\<close>

record completed_process =
  returncode :: int
  stdout :: string

text \<open>
  The outside world is a table of answers, fixed for one run: what \<open>subprocess.run\<close>
  gives for a command line (\<open>Inl\<close> when the call raises), whether the renderer leaves
  a file at its output path, and whether the library calls on images and on the
  filesystem go through. \<open>walk w top\<close> lists what \<open>os.walk(top)\<close> visits: for each
  directory, the names that lead to it from \<open>top\<close> and the files in it. The system
  state holds the filesystem, the log of the command lines that were run, and the
  working directory (an absolute path). The filesystem is keyed by location: the
  components of the absolute, normalised path, so that two spellings of one place
  (\<open>out\<close>, \<open>out/.\<close>, \<open>/work/out\<close> from \<open>/work\<close>) are one key.
\<close>

datatype content =
    Rendered "string list"
  | Resaved content string
  | Zip "(string \<times> content) list"

datatype node = Dir | File content

record world =
  run :: "string list \<Rightarrow> exn + completed_process"
  creates :: "string list \<Rightarrow> bool"
  pil_ok :: "string \<Rightarrow> string \<Rightarrow> bool"
  remove_ok :: "string \<Rightarrow> bool"
  mkdtemp_result :: "exn + string"
  rmtree_ok :: "string \<Rightarrow> bool"
  zip_open_ok :: "string \<Rightarrow> bool"
  zip_write_ok :: "string \<Rightarrow> string \<Rightarrow> bool"
  makedirs_ok :: "string \<Rightarrow> bool"
  walk :: "string \<Rightarrow> (string list \<times> string list) list"
  pil_installed :: bool

record sys =
  files :: "(string list \<times> node) list"
  calls :: "string list list"
  cwd :: string

definition backslash :: char where
  "backslash = CHR 0x5C"

definition DJVULIBRE_DIR :: string where
  "DJVULIBRE_DIR = ''C:'' @ [backslash] @ ''Program Files (x86)'' @ [backslash] @ ''DjVuLibre'' @ [backslash]"

definition DDJVU_PATH :: string where
  "DDJVU_PATH = DJVULIBRE_DIR @ ''ddjvu.exe''"

definition DJVUSED_PATH :: string where
  "DJVUSED_PATH = DJVULIBRE_DIR @ ''djvused.exe''"

text \<open>
  \<open>subprocess.run(cmd, capture_output=True, text=True)\<close> for the two query tools, which
  only read the document.
\<close>

definition subprocess_run :: "world \<Rightarrow> string list \<Rightarrow> sys \<Rightarrow> (exn + completed_process) \<times> sys" where
  "subprocess_run w cmd s = (run w cmd, s\<lparr>calls := calls s @ [cmd]\<rparr>)"

section \<open>Page Counter\<close>

text \<open>The body of the first \<open>try\<close>: \<open>Some n\<close> when it returns \<open>n\<close>.\<close>

definition djvused_count :: "exn + completed_process \<Rightarrow> nat option" where
  "djvused_count r =
     (case r of
        Inl e \<Rightarrow> None
      | Inr process \<Rightarrow>
          if returncode process = 0 \<and> isdigit (strip (stdout process))
          then (case py_int (strip (stdout process)) of Inl e \<Rightarrow> None | Inr n \<Rightarrow> Some n)
          else None)"

text \<open>The body of the second \<open>try\<close>.\<close>

definition ddjvu_list_count :: "exn + completed_process \<Rightarrow> nat option" where
  "ddjvu_list_count r =
     (case r of
        Inl e \<Rightarrow> None
      | Inr process \<Rightarrow>
          if returncode process = 0
          then (let pages = filter (\<lambda>line. startswith (strip line) ''Page '')
                              (split_on CHR 0x0A (stdout process))
                in if pages \<noteq> [] then Some (length pages) else None)
          else None)"

definition get_page_count :: "world \<Rightarrow> string \<Rightarrow> sys \<Rightarrow> nat \<times> sys" where
  "get_page_count w input_file s =
     (let (r1, s1) = subprocess_run w [DJVUSED_PATH, input_file, ''-e'', ''n''] s
      in case djvused_count r1 of
           Some n \<Rightarrow> (n, s1)
         | None \<Rightarrow>
             (let (r2, s2) = subprocess_run w [DDJVU_PATH, ''-l'', input_file] s1
              in case ddjvu_list_count r2 of
                   Some n \<Rightarrow> (n, s2)
                 | None \<Rightarrow> (100, s2)))"

section \<open>Filesystem\<close>

definition loc :: "sys \<Rightarrow> string \<Rightarrow> string list" where
  "loc s p = abs_comps (cwd s) p"

definition lookup :: "sys \<Rightarrow> string \<Rightarrow> node option" where
  "lookup s p = map_of (files s) (loc s p)"

definition exists :: "sys \<Rightarrow> string \<Rightarrow> bool" where
  "exists s p = (p \<noteq> [] \<and> lookup s p \<noteq> None)"

definition write_file :: "string \<Rightarrow> content \<Rightarrow> sys \<Rightarrow> sys" where
  "write_file p c s = s\<lparr>files := AList.update (loc s p) (File c) (files s)\<rparr>"

text \<open>
  \<open>subprocess.run\<close> for the renderer, whose last argument is its output path: the
  process may leave a file there, whatever the call then reports.
\<close>

definition subprocess_run_render :: "world \<Rightarrow> string list \<Rightarrow> sys \<Rightarrow> (exn + completed_process) \<times> sys" where
  "subprocess_run_render w cmd s =
     (run w cmd,
      (if creates w cmd then write_file (last cmd) (Rendered cmd) s else s)\<lparr>calls := calls s @ [cmd]\<rparr>)"

text \<open>\<open>Image.open(src).save(dst)\<close>; a failed save leaves no file of its own.\<close>

definition pil_resave :: "world \<Rightarrow> string \<Rightarrow> string \<Rightarrow> sys \<Rightarrow> exn + sys" where
  "pil_resave w src dst s =
     (case lookup s src of
        Some (File c) \<Rightarrow> if pil_ok w src dst then Inr (write_file dst (Resaved c dst) s) else Inl OSError
      | _ \<Rightarrow> Inl OSError)"

definition os_remove :: "world \<Rightarrow> string \<Rightarrow> sys \<Rightarrow> exn + sys" where
  "os_remove w p s =
     (case lookup s p of
        Some (File c) \<Rightarrow>
          if remove_ok w p then Inr (s\<lparr>files := AList.delete (loc s p) (files s)\<rparr>) else Inl OSError
      | _ \<Rightarrow> Inl OSError)"

definition mkdtemp :: "world \<Rightarrow> sys \<Rightarrow> exn + string \<times> sys" where
  "mkdtemp w s =
     (case mkdtemp_result w of
        Inl e \<Rightarrow> Inl e
      | Inr d \<Rightarrow> Inr (d, s\<lparr>files := AList.update (loc s d) Dir (files s)\<rparr>))"

text \<open>\<open>shutil.rmtree\<close>: the directory and everything below it.\<close>

definition shutil_rmtree :: "world \<Rightarrow> string \<Rightarrow> sys \<Rightarrow> exn + sys" where
  "shutil_rmtree w d s =
     (if lookup s d = Some Dir \<and> rmtree_ok w d
      then Inr (s\<lparr>files := filter (\<lambda>(k, n). \<not> prefix (loc s d) k) (files s)\<rparr>)
      else Inl OSError)"

text \<open>\<open>os.listdir\<close>: the names directly below the directory.\<close>

definition child_name :: "string list \<Rightarrow> string list \<Rightarrow> string option" where
  "child_name dir k = (if k \<noteq> [] \<and> butlast k = dir then Some (last k) else None)"

definition listdir :: "sys \<Rightarrow> string \<Rightarrow> exn + string list" where
  "listdir s d =
     (if lookup s d = Some Dir
      then Inr (List.map_filter (child_name (loc s d)) (map fst (files s)))
      else Inl OSError)"

text \<open>\<open>os.makedirs\<close>: the directory and every missing directory above it.\<close>

definition mkdir_missing :: "(string list \<times> node) list \<Rightarrow> string list \<Rightarrow> (string list \<times> node) list" where
  "mkdir_missing fs k = (if map_of fs k = None then fs @ [(k, Dir)] else fs)"

definition makedirs :: "world \<Rightarrow> string \<Rightarrow> sys \<Rightarrow> exn + sys" where
  "makedirs w p s =
     (if makedirs_ok w p \<and> lookup s p = None
      then Inr (s\<lparr>files := foldl mkdir_missing (files s) (tl (prefixes (loc s p)))\<rparr>)
      else Inl OSError)"

section \<open>Page Extractor\<close>

definition png_cmd :: "string \<Rightarrow> string \<Rightarrow> string \<Rightarrow> nat \<Rightarrow> int \<Rightarrow> string list" where
  "png_cmd ddjvu_path input_file output_file page quality =
     [ddjvu_path, ''-page='' @ str_nat page, ''-format=png'', ''-mode=color'',
      ''-quality='' @ str_int quality, ''-skip'', input_file, output_file]"

definition tiff_cmd :: "string \<Rightarrow> string \<Rightarrow> string \<Rightarrow> nat \<Rightarrow> int \<Rightarrow> string list" where
  "tiff_cmd ddjvu_path input_file output_file page quality =
     [ddjvu_path, ''-page='' @ str_nat page, ''-format=tiff'', ''-mode=color'',
      ''-quality='' @ str_int quality, ''-skip'', input_file,
      replace output_file ''.png'' ''.tiff'']"

text \<open>
  The body of the \<open>try\<close> from the second attempt on; an \<open>Inl\<close> is an exception, which
  the \<open>except\<close> clause of \<open>extract_page\<close> turns into \<open>False\<close>.
\<close>

definition tiff_fallback :: "world \<Rightarrow> string \<Rightarrow> string \<Rightarrow> string \<Rightarrow> nat \<Rightarrow> int \<Rightarrow> sys \<Rightarrow> (exn + bool) \<times> sys" where
  "tiff_fallback w ddjvu_path input_file output_file page quality s =
     (let (r, s1) = subprocess_run_render w (tiff_cmd ddjvu_path input_file output_file page quality) s
      in case r of
           Inl e \<Rightarrow> (Inl e, s1)
         | Inr process \<Rightarrow>
             if returncode process = 0 \<and> exists s1 (replace output_file ''.png'' ''.tiff'') then
               (let tiff_file = replace output_file ''.png'' ''.tiff''
                in case pil_resave w tiff_file output_file s1 of
                     Inl e \<Rightarrow> (Inl e, s1)
                   | Inr s2 \<Rightarrow>
                       (case os_remove w tiff_file s2 of
                          Inl e \<Rightarrow> (Inl e, s2)
                        | Inr s3 \<Rightarrow> (Inr True, s3)))
             else (Inr False, s1))"

definition extract_page :: "world \<Rightarrow> string \<Rightarrow> string \<Rightarrow> string \<Rightarrow> nat \<Rightarrow> int \<Rightarrow> sys \<Rightarrow> bool \<times> sys" where
  "extract_page w ddjvu_path input_file output_file page quality s =
     (let (r, s1) = subprocess_run_render w (png_cmd ddjvu_path input_file output_file page quality) s
      in case r of
           Inl e \<Rightarrow> (False, s1)
         | Inr process \<Rightarrow>
             if returncode process = 0 \<and> exists s1 output_file then (True, s1)
             else
               (case tiff_fallback w ddjvu_path input_file output_file page quality s1 of
                  (Inl e, s2) \<Rightarrow> (False, s2)
                | (Inr b, s2) \<Rightarrow> (b, s2)))"

section \<open>Document Converter\<close>

definition page_filename :: "string \<Rightarrow> nat \<Rightarrow> string" where
  "page_filename temp_dir page = path_join temp_dir (''page_'' @ format_04d page @ ''.png'')"

text \<open>The loop over the pages, with the counter \<open>successful_pages\<close>.\<close>

fun extract_pages :: "world \<Rightarrow> string \<Rightarrow> string \<Rightarrow> int \<Rightarrow> nat list \<Rightarrow> nat \<Rightarrow> sys \<Rightarrow> nat \<times> sys" where
  "extract_pages w input_file temp_dir quality [] successful_pages s = (successful_pages, s)"
| "extract_pages w input_file temp_dir quality (page # pages) successful_pages s =
     (case extract_page w DDJVU_PATH input_file (page_filename temp_dir page) page quality s of
        (True, s1) \<Rightarrow> extract_pages w input_file temp_dir quality pages (successful_pages + 1) s1
      | (False, s1) \<Rightarrow> extract_pages w input_file temp_dir quality pages successful_pages s1)"

text \<open>
  \<open>zipf.write(png_path, png_file)\<close> appends one entry to the archive; the archive file
  holds every entry written so far, also when a later write raises.
\<close>

definition zip_write :: "world \<Rightarrow> string \<Rightarrow> string \<Rightarrow> string \<Rightarrow> sys \<Rightarrow> exn + sys" where
  "zip_write w output_file png_path png_file s =
     (case (lookup s png_path, lookup s output_file) of
        (Some (File c), Some (File (Zip entries))) \<Rightarrow>
          if zip_write_ok w output_file png_file
          then Inr (write_file output_file (Zip (entries @ [(png_file, c)])) s)
          else Inl OSError
      | _ \<Rightarrow> Inl OSError)"

fun zip_write_all :: "world \<Rightarrow> string \<Rightarrow> string \<Rightarrow> string list \<Rightarrow> sys \<Rightarrow> (exn + unit) \<times> sys" where
  "zip_write_all w temp_dir output_file [] s = (Inr (), s)"
| "zip_write_all w temp_dir output_file (png_file # png_files) s =
     (case zip_write w output_file (path_join temp_dir png_file) png_file s of
        Inl e \<Rightarrow> (Inl e, s)
      | Inr s1 \<Rightarrow> zip_write_all w temp_dir output_file png_files s1)"

text \<open>
  The \<open>with zipfile.ZipFile(output_file, 'w')\<close> block; opening creates the file, and
  raises when the path is a directory.
\<close>

definition create_cbz :: "world \<Rightarrow> string \<Rightarrow> string \<Rightarrow> sys \<Rightarrow> (exn + unit) \<times> sys" where
  "create_cbz w temp_dir output_file s =
     (if \<not> zip_open_ok w output_file \<or> lookup s output_file = Some Dir then (Inl OSError, s)
      else
        (let s1 = write_file output_file (Zip []) s
         in case listdir s1 temp_dir of
              Inl e \<Rightarrow> (Inl e, s1)
            | Inr names \<Rightarrow>
                (let png_files = sort (filter (\<lambda>f. endswith f ''.png'') names)
                 in zip_write_all w temp_dir output_file png_files s1)))"

text \<open>The body of the \<open>try\<close> of \<open>convert_djvu_to_cbz\<close>.\<close>

definition convert_body :: "world \<Rightarrow> string \<Rightarrow> string \<Rightarrow> int \<Rightarrow> string \<Rightarrow> sys \<Rightarrow> (exn + bool) \<times> sys" where
  "convert_body w input_file output_file quality temp_dir s =
     (let (num_pages, s1) = get_page_count w input_file s;
          (successful_pages, s2) = extract_pages w input_file temp_dir quality [1 ..< num_pages + 1] 0 s1
      in if successful_pages = 0 then (Inr False, s2)
         else
           (case create_cbz w temp_dir output_file s2 of
              (Inl e, s3) \<Rightarrow> (Inl e, s3)
            | (Inr u, s3) \<Rightarrow> (Inr True, s3)))"

text \<open>
  \<open>mkdtemp\<close> runs before the \<open>try\<close>; the \<open>except\<close> clause turns an exception of the
  body into \<open>False\<close>; \<open>rmtree\<close> runs in the \<open>finally\<close> clause, and an exception it raises
  leaves the function.
\<close>

definition convert_djvu_to_cbz :: "world \<Rightarrow> string \<Rightarrow> string \<Rightarrow> int \<Rightarrow> sys \<Rightarrow> (exn + bool) \<times> sys" where
  "convert_djvu_to_cbz w input_file output_file quality s =
     (case mkdtemp w s of
        Inl e \<Rightarrow> (Inl e, s)
      | Inr (temp_dir, s0) \<Rightarrow>
          (let (r, s1) = convert_body w input_file output_file quality temp_dir s0;
               result = (case r of Inl e \<Rightarrow> False | Inr b \<Rightarrow> b)
           in case shutil_rmtree w temp_dir s1 of
                Inl e \<Rightarrow> (Inl e, s1)
              | Inr s2 \<Rightarrow> (Inr result, s2)))"

section \<open>Batch Orchestrator\<close>

text \<open>What the run reports before it returns.\<close>

datatype outcome = NoInputFolder | NoFiles | NoExecutable | Summary nat nat

text \<open>The inner loop of the discovery, over the files of one directory.\<close>

fun discover_files ::
  "world \<Rightarrow> string \<Rightarrow> string \<Rightarrow> string \<Rightarrow> string list \<Rightarrow> (string \<times> string) list \<Rightarrow> sys \<Rightarrow>
   (exn + (string \<times> string) list) \<times> sys" where
  "discover_files w input_folder output_folder root [] djvu_files s = (Inr djvu_files, s)"
| "discover_files w input_folder output_folder root (file # file_list) djvu_files s =
     (if endswith (lower file) ''.djvu'' \<or> endswith (lower file) ''.djv'' then
        (let input_path = path_join root file
         in case relpath (cwd s) root input_folder of
              Inl e \<Rightarrow> (Inl e, s)
            | Inr rel_path \<Rightarrow>
                (let output_subdir = path_join output_folder rel_path;
                     output_path = path_join output_subdir (fst (splitext file) @ ''.cbz'')
                 in if \<not> exists s output_subdir then
                      (case makedirs w output_subdir s of
                         Inl e \<Rightarrow> (Inl e, s)
                       | Inr s1 \<Rightarrow>
                           discover_files w input_folder output_folder root file_list
                             (djvu_files @ [(input_path, output_path)]) s1)
                    else discover_files w input_folder output_folder root file_list
                           (djvu_files @ [(input_path, output_path)]) s))
      else discover_files w input_folder output_folder root file_list djvu_files s)"

text \<open>The outer loop, over the directories \<open>os.walk\<close> visits.\<close>

fun discover ::
  "world \<Rightarrow> string \<Rightarrow> string \<Rightarrow> (string list \<times> string list) list \<Rightarrow> (string \<times> string) list \<Rightarrow> sys \<Rightarrow>
   (exn + (string \<times> string) list) \<times> sys" where
  "discover w input_folder output_folder [] djvu_files s = (Inr djvu_files, s)"
| "discover w input_folder output_folder ((names, file_list) # rest) djvu_files s =
     (case discover_files w input_folder output_folder (foldl path_join input_folder names) file_list djvu_files s of
        (Inl e, s1) \<Rightarrow> (Inl e, s1)
      | (Inr djvu_files1, s1) \<Rightarrow> discover w input_folder output_folder rest djvu_files1 s1)"

text \<open>Sequential processing: an exception of a conversion ends the loop.\<close>

fun convert_sequential :: "world \<Rightarrow> int \<Rightarrow> (string \<times> string) list \<Rightarrow> nat \<Rightarrow> sys \<Rightarrow> (exn + nat) \<times> sys" where
  "convert_sequential w quality [] successful s = (Inr successful, s)"
| "convert_sequential w quality ((input_file, output_file) # jobs) successful s =
     (case convert_djvu_to_cbz w input_file output_file quality s of
        (Inl e, s1) \<Rightarrow> (Inl e, s1)
      | (Inr b, s1) \<Rightarrow> convert_sequential w quality jobs (if b then successful + 1 else successful) s1)"

text \<open>
  The worker pool, on the schedule where each job runs to its end in submission
  order: every job runs, then the results are read in submission order and the first
  exception is raised again.
\<close>

fun run_futures :: "world \<Rightarrow> int \<Rightarrow> (string \<times> string) list \<Rightarrow> sys \<Rightarrow> (exn + bool) list \<times> sys" where
  "run_futures w quality [] s = ([], s)"
| "run_futures w quality ((input_file, output_file) # jobs) s =
     (let (r, s1) = convert_djvu_to_cbz w input_file output_file quality s;
          (rs, s2) = run_futures w quality jobs s1
      in (r # rs, s2))"

fun count_results :: "(exn + bool) list \<Rightarrow> nat \<Rightarrow> exn + nat" where
  "count_results [] successful = Inr successful"
| "count_results (Inl e # rs) successful = Inl e"
| "count_results (Inr b # rs) successful = count_results rs (if b then successful + 1 else successful)"

definition convert_jobs :: "world \<Rightarrow> int \<Rightarrow> int \<Rightarrow> (string \<times> string) list \<Rightarrow> sys \<Rightarrow> (exn + outcome) \<times> sys" where
  "convert_jobs w quality max_workers djvu_files s =
     (if max_workers > 1 then
        (let (rs, s1) = run_futures w quality djvu_files s
         in case count_results rs 0 of
              Inl e \<Rightarrow> (Inl e, s1)
            | Inr successful \<Rightarrow> (Inr (Summary successful (length djvu_files)), s1))
      else
        (case convert_sequential w quality djvu_files 0 s of
           (Inl e, s1) \<Rightarrow> (Inl e, s1)
         | (Inr successful, s1) \<Rightarrow> (Inr (Summary successful (length djvu_files)), s1)))"

text \<open>The checks after the discovery: the job list, the executable, the image library.\<close>

definition dispatch :: "world \<Rightarrow> int \<Rightarrow> int \<Rightarrow> (string \<times> string) list \<Rightarrow> sys \<Rightarrow> (exn + outcome) \<times> sys" where
  "dispatch w quality max_workers djvu_files s =
     (if djvu_files = [] then (Inr NoFiles, s)
      else if \<not> exists s DDJVU_PATH then (Inr NoExecutable, s)
      else if pil_installed w then convert_jobs w quality max_workers djvu_files s
      else
        (case subprocess_run w [''pip'', ''install'', ''Pillow''] s of
           (Inl e, s1) \<Rightarrow> (Inl e, s1)
         | (Inr process, s1) \<Rightarrow>
             if returncode process \<noteq> 0 then (Inl CalledProcessError, s1)
             else convert_jobs w quality max_workers djvu_files s1))"

definition process_folder :: "world \<Rightarrow> string \<Rightarrow> string option \<Rightarrow> int \<Rightarrow> int \<Rightarrow> sys \<Rightarrow> (exn + outcome) \<times> sys" where
  "process_folder w input_folder output_folder_arg quality max_workers s =
     (if \<not> exists s input_folder then (Inr NoInputFolder, s)
      else
        (let output_folder = (case output_folder_arg of None \<Rightarrow> input_folder | Some d \<Rightarrow> d)
         in case (if \<not> exists s output_folder then makedirs w output_folder s else Inr s) of
              Inl e \<Rightarrow> (Inl e, s)
            | Inr s1 \<Rightarrow>
                (case discover w input_folder output_folder (walk w input_folder) [] s1 of
                   (Inl e, s2) \<Rightarrow> (Inl e, s2)
                 | (Inr djvu_files, s2) \<Rightarrow> dispatch w quality max_workers djvu_files s2)))"

section \<open>Sample worlds\<close>

text \<open>Concrete worlds and states on which the theorems below are evaluated.\<close>

definition no_tools :: world where
  "no_tools =
     \<lparr>run = (\<lambda>cmd. Inl OSError), creates = (\<lambda>cmd. False), pil_ok = (\<lambda>src dst. True),
      remove_ok = (\<lambda>p. True), mkdtemp_result = Inr ''/tmp/tmpa1'', rmtree_ok = (\<lambda>d. True),
      zip_open_ok = (\<lambda>p. True), zip_write_ok = (\<lambda>a f. True), makedirs_ok = (\<lambda>p. True),
      walk = (\<lambda>top. []), pil_installed = True\<rparr>"

definition empty_sys :: sys where
  "empty_sys = \<lparr>files = [], calls = [], cwd = ''/work''\<rparr>"

definition zero_pages_world :: world where
  "zero_pages_world = no_tools\<lparr>run := (\<lambda>cmd. Inr \<lparr>returncode = 0, stdout = ''0''\<rparr>)\<rparr>"

definition listing_world :: world where
  "listing_world =
     no_tools\<lparr>run := (\<lambda>cmd. if cmd = [DDJVU_PATH, ''-l'', ''book.djvu'']
                          then Inr \<lparr>returncode = 0, stdout = ''Page 1'' @ [CHR 0x0A] @ ''Page 2''\<rparr>
                          else Inl OSError)\<rparr>"

text \<open>Whether a file holds an image in the primary format, PNG.\<close>

definition is_png :: "content \<Rightarrow> bool" where
  "is_png c =
     (case c of
        Rendered cmd \<Rightarrow> ''-format=png'' \<in> set cmd
      | Resaved src path \<Rightarrow> endswith (lower path) ''.png''
      | Zip entries \<Rightarrow> False)"

definition fallback_world :: world where
  "fallback_world =
     no_tools\<lparr>run := (\<lambda>cmd. Inr \<lparr>returncode = 0, stdout = []\<rparr>),
              creates := (\<lambda>cmd. ''-format=tiff'' \<in> set cmd)\<rparr>"

definition broken_pil_world :: world where
  "broken_pil_world = fallback_world\<lparr>pil_ok := (\<lambda>src dst. False)\<rparr>"

definition locked_tiff_world :: world where
  "locked_tiff_world = fallback_world\<lparr>remove_ok := (\<lambda>p. False)\<rparr>"

section \<open>Properties of the Page Counter\<close>

lemma decimal_is_digit: "is_decimal_char c \<Longrightarrow> isdigit_char c"
  by (simp add: is_decimal_char_def isdigit_char_def Let_def)

lemma djvused_count_None_iff:
  "djvused_count r = None \<longleftrightarrow>
     (case r of Inl e \<Rightarrow> True
      | Inr p \<Rightarrow> returncode p \<noteq> 0 \<or> strip (stdout p) = [] \<or> \<not> list_all is_decimal_char (strip (stdout p))
                 \<or> int_max_str_digits < length (strip (stdout p)))"
  by (auto simp: djvused_count_def py_int_def isdigit_def list_all_iff decimal_is_digit split: sum.splits)

lemma djvused_count_NoneI:
  "(case r of Inl e \<Rightarrow> True
    | Inr p \<Rightarrow> returncode p \<noteq> 0 \<or> strip (stdout p) = [] \<or> \<not> list_all is_decimal_char (strip (stdout p)))
   \<Longrightarrow> djvused_count r = None"
  by (auto simp: djvused_count_None_iff split: sum.splits)

lemma djvused_count_Some_iff:
  "djvused_count r = Some n \<longleftrightarrow>
     (\<exists>p. r = Inr p \<and> returncode p = 0 \<and> py_int (strip (stdout p)) = Inr n)"
  by (auto simp: djvused_count_def py_int_def isdigit_def list_all_iff decimal_is_digit split: sum.splits)

lemma ddjvu_list_count_None_iff:
  "ddjvu_list_count r = None \<longleftrightarrow>
     (case r of Inl e \<Rightarrow> True
      | Inr p \<Rightarrow> returncode p \<noteq> 0 \<or> filter (\<lambda>line. startswith (strip line) ''Page '') (split_on CHR 0x0A (stdout p)) = [])"
  by (auto simp: ddjvu_list_count_def Let_def split: sum.splits)

lemma ddjvu_list_count_Some_iff:
  "ddjvu_list_count r = Some n \<longleftrightarrow>
     (\<exists>p. r = Inr p \<and> returncode p = 0 \<and> n > 0 \<and> n = length (filter (\<lambda>line. startswith (strip line) ''Page '') (split_on CHR 0x0A (stdout p))))"
  by (auto simp: ddjvu_list_count_def Let_def split: sum.splits)

text \<open>
  C6, as stated: \<open>get_page_count\<close> returns a positive integer for every document. It
  does not: when \<open>djvused\<close> exits with status 0 and prints \<open>0\<close>, that zero is returned.
\<close>

theorem get_page_count_positive_counterexample: "\<not> 0 < fst (get_page_count zero_pages_world ''book.djvu'' empty_sys)"
  by (simp add: get_page_count_def subprocess_run_def zero_pages_world_def no_tools_def djvused_count_def
      strip_def isspace_char_def isdigit_def isdigit_char_def py_int_def int_max_str_digits_def is_decimal_char_def digit_value_def)

text \<open>
  C6, amended: \<open>get_page_count\<close> is total (no exception leaves it) and returns a
  non-negative integer; the result is the default 100 whenever both tools fail or raise,
  and it is zero only when \<open>djvused\<close> itself exits with status 0 and prints a decimal
  zero.
\<close>

theorem get_page_count_value:
  "((case run w [DJVUSED_PATH, input_file, ''-e'', ''n''] of
       Inl e \<Rightarrow> True
     | Inr p \<Rightarrow> returncode p \<noteq> 0 \<or> strip (stdout p) = [] \<or> \<not> list_all is_decimal_char (strip (stdout p)))
    \<and> (case run w [DDJVU_PATH, ''-l'', input_file] of
       Inl e \<Rightarrow> True
     | Inr p \<Rightarrow> returncode p \<noteq> 0 \<or>
                filter (\<lambda>line. startswith (strip line) ''Page '') (split_on CHR 0x0A (stdout p)) = [])
    \<longrightarrow> fst (get_page_count w input_file s) = 100)
   \<and> (fst (get_page_count w input_file s) = 0 \<longrightarrow>
        (\<exists>p. run w [DJVUSED_PATH, input_file, ''-e'', ''n''] = Inr p \<and> returncode p = 0
             \<and> py_int (strip (stdout p)) = Inr 0))"
proof (intro conjI impI)
  assume "(case run w [DJVUSED_PATH, input_file, ''-e'', ''n''] of
       Inl e \<Rightarrow> True
     | Inr p \<Rightarrow> returncode p \<noteq> 0 \<or> strip (stdout p) = [] \<or> \<not> list_all is_decimal_char (strip (stdout p)))
    \<and> (case run w [DDJVU_PATH, ''-l'', input_file] of
       Inl e \<Rightarrow> True
     | Inr p \<Rightarrow> returncode p \<noteq> 0 \<or>
                filter (\<lambda>line. startswith (strip line) ''Page '') (split_on CHR 0x0A (stdout p)) = [])"
  then have "djvused_count (run w [DJVUSED_PATH, input_file, ''-e'', ''n'']) = None"
    and "ddjvu_list_count (run w [DDJVU_PATH, ''-l'', input_file]) = None"
    by (simp_all only: djvused_count_NoneI ddjvu_list_count_None_iff)
  then show "fst (get_page_count w input_file s) = 100"
    by (simp add: get_page_count_def subprocess_run_def)
next
  assume z: "fst (get_page_count w input_file s) = 0"
  show "\<exists>p. run w [DJVUSED_PATH, input_file, ''-e'', ''n''] = Inr p \<and> returncode p = 0
             \<and> py_int (strip (stdout p)) = Inr 0"
  proof (cases "djvused_count (run w [DJVUSED_PATH, input_file, ''-e'', ''n''])")
    case None
    with z show ?thesis
      by (auto simp: get_page_count_def subprocess_run_def ddjvu_list_count_Some_iff split: option.splits)
  next
    case (Some n)
    with z have "n = 0" by (simp add: get_page_count_def subprocess_run_def)
    with Some show ?thesis by (simp add: djvused_count_Some_iff)
  qed
qed

theorem get_page_count_value_witness:
  "fst (get_page_count no_tools ''book.djvu'' empty_sys) = 100
   \<and> (\<exists>p. run zero_pages_world [DJVUSED_PATH, ''book.djvu'', ''-e'', ''n''] = Inr p \<and> returncode p = 0
            \<and> py_int (strip (stdout p)) = Inr 0)"
proof
  have "run no_tools [DJVUSED_PATH, ''book.djvu'', ''-e'', ''n''] = Inl OSError"
    and "run no_tools [DDJVU_PATH, ''-l'', ''book.djvu''] = Inl OSError"
    by (simp_all add: no_tools_def)
  then show "fst (get_page_count no_tools ''book.djvu'' empty_sys) = 100"
    using get_page_count_value [of no_tools "''book.djvu''" empty_sys] by simp
next
  have "fst (get_page_count zero_pages_world ''book.djvu'' empty_sys) = 0"
    by (simp add: get_page_count_def subprocess_run_def zero_pages_world_def no_tools_def djvused_count_def
      strip_def isspace_char_def isdigit_def isdigit_char_def py_int_def int_max_str_digits_def is_decimal_char_def digit_value_def)
  then show "\<exists>p. run zero_pages_world [DJVUSED_PATH, ''book.djvu'', ''-e'', ''n''] = Inr p \<and> returncode p = 0
            \<and> py_int (strip (stdout p)) = Inr 0"
    using get_page_count_value [of zero_pages_world "''book.djvu''" empty_sys] by blast
qed

text \<open>
  C7: the fallback chain is ordered. When \<open>djvused\<close> exits with status 0 and prints a
  decimal number that \<open>int\<close> accepts (\<open>py_int\<close> gives \<open>Inr\<close>: decimal digits only, at
  most 4300 of them), that number is returned and no other tool is run. Only when
  \<open>djvused\<close> raises, exits with another status or prints something else is \<open>ddjvu -l\<close>
  run, after it; its count of lines starting with \<open>Page \<close> is returned when it exits
  with status 0 and there is such a line, and the default 100 is returned in every
  other case, that is, only after both tools have been run and have failed.
\<close>

theorem get_page_count_chain:
  "(\<forall>p n. run w [DJVUSED_PATH, input_file, ''-e'', ''n''] = Inr p \<and> returncode p = 0
           \<and> py_int (strip (stdout p)) = Inr n \<longrightarrow>
      get_page_count w input_file s =
        (n, s\<lparr>calls := calls s @ [[DJVUSED_PATH, input_file, ''-e'', ''n'']]\<rparr>))
   \<and> ((case run w [DJVUSED_PATH, input_file, ''-e'', ''n''] of
         Inl e \<Rightarrow> True
       | Inr p \<Rightarrow> returncode p \<noteq> 0 \<or> py_int (strip (stdout p)) = Inl ValueError) \<longrightarrow>
      get_page_count w input_file s =
        ((case run w [DDJVU_PATH, ''-l'', input_file] of
            Inl e \<Rightarrow> 100
          | Inr p \<Rightarrow>
              if returncode p = 0
                 \<and> filter (\<lambda>line. startswith (strip line) ''Page '') (split_on CHR 0x0A (stdout p)) \<noteq> []
              then length (filter (\<lambda>line. startswith (strip line) ''Page '') (split_on CHR 0x0A (stdout p)))
              else 100),
         s\<lparr>calls := calls s @ [[DJVUSED_PATH, input_file, ''-e'', ''n''], [DDJVU_PATH, ''-l'', input_file]]\<rparr>))"
proof (intro conjI allI impI)
  fix p n
  assume "run w [DJVUSED_PATH, input_file, ''-e'', ''n''] = Inr p \<and> returncode p = 0
           \<and> py_int (strip (stdout p)) = Inr n"
  then have "djvused_count (run w [DJVUSED_PATH, input_file, ''-e'', ''n'']) = Some n"
    by (simp add: djvused_count_Some_iff)
  then show "get_page_count w input_file s =
        (n, s\<lparr>calls := calls s @ [[DJVUSED_PATH, input_file, ''-e'', ''n'']]\<rparr>)"
    by (simp add: get_page_count_def subprocess_run_def)
next
  assume "case run w [DJVUSED_PATH, input_file, ''-e'', ''n''] of
         Inl e \<Rightarrow> True
       | Inr p \<Rightarrow> returncode p \<noteq> 0 \<or> py_int (strip (stdout p)) = Inl ValueError"
  then have "djvused_count (run w [DJVUSED_PATH, input_file, ''-e'', ''n'']) = None"
    by (auto simp: djvused_count_def split: sum.splits)
  then show "get_page_count w input_file s =
        ((case run w [DDJVU_PATH, ''-l'', input_file] of
            Inl e \<Rightarrow> 100
          | Inr p \<Rightarrow>
              if returncode p = 0
                 \<and> filter (\<lambda>line. startswith (strip line) ''Page '') (split_on CHR 0x0A (stdout p)) \<noteq> []
              then length (filter (\<lambda>line. startswith (strip line) ''Page '') (split_on CHR 0x0A (stdout p)))
              else 100),
         s\<lparr>calls := calls s @ [[DJVUSED_PATH, input_file, ''-e'', ''n''], [DDJVU_PATH, ''-l'', input_file]]\<rparr>)"
    by (simp add: get_page_count_def subprocess_run_def ddjvu_list_count_def Let_def split: sum.splits)
qed

theorem get_page_count_chain_witness:
  "get_page_count zero_pages_world ''book.djvu'' empty_sys =
     (0, empty_sys\<lparr>calls := calls empty_sys @ [[DJVUSED_PATH, ''book.djvu'', ''-e'', ''n'']]\<rparr>)
   \<and> get_page_count listing_world ''book.djvu'' empty_sys =
     (2, empty_sys\<lparr>calls := calls empty_sys @
           [[DJVUSED_PATH, ''book.djvu'', ''-e'', ''n''], [DDJVU_PATH, ''-l'', ''book.djvu'']]\<rparr>)"
proof
  have "run zero_pages_world [DJVUSED_PATH, ''book.djvu'', ''-e'', ''n''] = Inr \<lparr>returncode = 0, stdout = ''0''\<rparr>
        \<and> returncode \<lparr>returncode = 0, stdout = ''0''\<rparr> = 0
        \<and> py_int (strip (stdout \<lparr>returncode = 0, stdout = ''0''\<rparr>)) = Inr 0"
    by (simp add: zero_pages_world_def no_tools_def strip_def isspace_char_def py_int_def int_max_str_digits_def
        is_decimal_char_def digit_value_def)
  then show "get_page_count zero_pages_world ''book.djvu'' empty_sys =
     (0, empty_sys\<lparr>calls := calls empty_sys @ [[DJVUSED_PATH, ''book.djvu'', ''-e'', ''n'']]\<rparr>)"
    using get_page_count_chain [of zero_pages_world "''book.djvu''" empty_sys] by blast
next
  have neq: "[DJVUSED_PATH, ''book.djvu'', ''-e'', ''n''] \<noteq> [DDJVU_PATH, ''-l'', ''book.djvu'']"
    by simp
  have a: "case run listing_world [DJVUSED_PATH, ''book.djvu'', ''-e'', ''n''] of
         Inl e \<Rightarrow> True
       | Inr p \<Rightarrow> returncode p \<noteq> 0 \<or> py_int (strip (stdout p)) = Inl ValueError"
    using neq by (simp add: listing_world_def no_tools_def)
  have b: "run listing_world [DDJVU_PATH, ''-l'', ''book.djvu'']
            = Inr \<lparr>returncode = 0, stdout = ''Page 1'' @ [CHR 0x0A] @ ''Page 2''\<rparr>"
    by (simp add: listing_world_def no_tools_def)
  show "get_page_count listing_world ''book.djvu'' empty_sys =
     (2, empty_sys\<lparr>calls := calls empty_sys @
           [[DJVUSED_PATH, ''book.djvu'', ''-e'', ''n''], [DDJVU_PATH, ''-l'', ''book.djvu'']]\<rparr>)"
    using get_page_count_chain [of listing_world "''book.djvu''" empty_sys] a
    by (simp add: b startswith_def strip_def isspace_char_def)
qed

section \<open>Properties of the Page Extractor\<close>

lemma loc_files [simp]: "loc (s\<lparr>files := f\<rparr>) p = loc s p"
  by (simp add: loc_def)

lemma loc_calls [simp]: "loc (s\<lparr>calls := c\<rparr>) p = loc s p"
  by (simp add: loc_def)

lemma lookup_calls [simp]: "lookup (s\<lparr>calls := c\<rparr>) p = lookup s p"
  by (simp add: lookup_def)

lemma loc_write_file [simp]: "loc (write_file p c s) x = loc s x"
  by (simp add: write_file_def)

lemma lookup_write_file:
  "lookup (write_file p c s) x = (if loc s x = loc s p then Some (File c) else lookup s x)"
  by (simp add: lookup_def write_file_def update_conv')

lemma loc_render [simp]: "loc (snd (subprocess_run_render w cmd s)) x = loc s x"
  by (simp add: subprocess_run_render_def)

lemma lookup_render:
  "lookup (snd (subprocess_run_render w cmd s)) x =
     (if creates w cmd \<and> loc s x = loc s (last cmd) then Some (File (Rendered cmd)) else lookup s x)"
  by (simp add: subprocess_run_render_def lookup_write_file)

lemma fst_render [simp]: "fst (subprocess_run_render w cmd s) = run w cmd"
  by (simp add: subprocess_run_render_def)

lemma pil_resave_loc: "pil_resave w src dst s = Inr s2 \<Longrightarrow> loc s2 x = loc s x"
  by (auto simp: pil_resave_def split: option.splits node.splits if_splits)

lemma pil_resave_lookup:
  "pil_resave w src dst s = Inr s2 \<Longrightarrow>
     \<exists>c. lookup s src = Some (File c)
        \<and> (\<forall>x. lookup s2 x = (if loc s x = loc s dst then Some (File (Resaved c dst)) else lookup s x))"
  by (auto simp: pil_resave_def lookup_write_file split: option.splits node.splits if_splits)

lemma os_remove_loc: "os_remove w p s = Inr s3 \<Longrightarrow> loc s3 x = loc s x"
  by (auto simp: os_remove_def split: option.splits node.splits if_splits)

lemma os_remove_lookup:
  "os_remove w p s = Inr s3 \<Longrightarrow> lookup s3 x = (if loc s x = loc s p then None else lookup s x)"
  by (auto simp: os_remove_def lookup_def delete_conv' split: option.splits node.splits if_splits)

lemma last_png_cmd [simp]: "last (png_cmd d i out p q) = out"
  by (simp add: png_cmd_def)

lemma last_tiff_cmd [simp]: "last (tiff_cmd d i out p q) = replace out ''.png'' ''.tiff''"
  by (simp add: tiff_cmd_def)

text \<open>The outcomes of the second attempt, one by one.\<close>

lemma tiff_fallback_cases:
  fixes w d i out p q s
  defines "s1 \<equiv> snd (subprocess_run_render w (tiff_cmd d i out p q) s)"
  defines "t \<equiv> replace out ''.png'' ''.tiff''"
  shows "(\<exists>e. tiff_fallback w d i out p q s = (Inl e, s1))
       \<or> tiff_fallback w d i out p q s = (Inr False, s1)
       \<or> (\<exists>pr s2. run w (tiff_cmd d i out p q) = Inr pr \<and> returncode pr = 0 \<and> exists s1 t
              \<and> pil_resave w t out s1 = Inr s2
              \<and> ((\<exists>e. os_remove w t s2 = Inl e \<and> tiff_fallback w d i out p q s = (Inl e, s2))
                  \<or> (\<exists>s3. os_remove w t s2 = Inr s3 \<and> tiff_fallback w d i out p q s = (Inr True, s3))))"
  unfolding tiff_fallback_def Let_def s1_def t_def
  by (cases "subprocess_run_render w (tiff_cmd d i out p q) s")
     (auto simp: subprocess_run_render_def split: sum.splits)

lemma replace_Nil: "old \<noteq> [] \<Longrightarrow> replace [] old new = []"
  by (simp add: replace.simps)

lemma replace_match:
  "old \<noteq> [] \<Longrightarrow> replace (old @ s) old new = new @ replace s old new"
  by (subst replace.simps) simp

lemma replace_step:
  "old \<noteq> [] \<Longrightarrow> take (length old) (x # s) \<noteq> old \<Longrightarrow> replace (x # s) old new = x # replace s old new"
  by (subst replace.simps) simp

lemma take_eq_appendD: "take (length old) s = old \<Longrightarrow> s = old @ drop (length old) s"
  by (metis append_take_drop_id)

lemma replace_length_ge:
  "old \<noteq> [] \<Longrightarrow> length old \<le> length new \<Longrightarrow> length s \<le> length (replace s old new)"
proof (induction "length s" arbitrary: s rule: less_induct)
  case less
  show ?case
  proof (cases s)
    case Nil
    then show ?thesis by simp
  next
    case (Cons x xs)
    show ?thesis
    proof (cases "take (length old) s = old")
      case True
      then obtain r where r: "s = old @ r" using take_eq_appendD by blast
      with less.prems have "length r < length s" by simp
      then have "length r \<le> length (replace r old new)" using less by blast
      then show ?thesis using less.prems by (simp add: r replace_match)
    next
      case False
      have "length xs \<le> length (replace xs old new)" using less Cons by simp
      then show ?thesis using False less.prems unfolding Cons by (simp add: replace_step)
    qed
  qed
qed

lemma replace_length_gt:
  "endswith s old \<Longrightarrow> old \<noteq> [] \<Longrightarrow> length old < length new \<Longrightarrow> length s < length (replace s old new)"
proof (induction "length s" arbitrary: s rule: less_induct)
  case less
  show ?case
  proof (cases s)
    case Nil
    with less.prems show ?thesis by (simp add: endswith_def)
  next
    case (Cons x xs)
    show ?thesis
    proof (cases "take (length old) s = old")
      case True
      then obtain r where r: "s = old @ r" using take_eq_appendD by blast
      have "length r \<le> length (replace r old new)"
        using less.prems by (intro replace_length_ge) simp_all
      then show ?thesis using less.prems by (simp add: r replace_match)
    next
      case False
      have "length old \<noteq> length s" using less.prems(1) False by (auto simp: endswith_def)
      then have "length old < length s" using less.prems(1) by (simp add: endswith_def)
      then have "endswith xs old"
        using less.prems(1) unfolding Cons by (simp add: endswith_def Suc_diff_le)
      then have "length xs < length (replace xs old new)" using less Cons by simp
      then show ?thesis using False less.prems unfolding Cons by (simp add: replace_step)
    qed
  qed
qed

lemma tiff_path_differs:
  "endswith output_file ''.png'' \<Longrightarrow> replace output_file ''.png'' ''.tiff'' \<noteq> output_file"
  using replace_length_gt [of output_file "''.png''" "''.tiff''"] by auto

lemma replace_page_png: "replace ''page.png'' ''.png'' ''.tiff'' = ''page.tiff''"
  by (simp add: replace.simps)

lemma extract_page_cases:
  fixes w d i out p q s
  defines "s1 \<equiv> snd (subprocess_run_render w (png_cmd d i out p q) s)"
  shows "(\<exists>e. run w (png_cmd d i out p q) = Inl e \<and> extract_page w d i out p q s = (False, s1))
       \<or> (\<exists>pr. run w (png_cmd d i out p q) = Inr pr \<and> returncode pr = 0 \<and> exists s1 out
              \<and> extract_page w d i out p q s = (True, s1))
       \<or> (\<exists>pr. run w (png_cmd d i out p q) = Inr pr \<and> \<not> (returncode pr = 0 \<and> exists s1 out)
              \<and> extract_page w d i out p q s =
                  ((case fst (tiff_fallback w d i out p q s1) of Inl e \<Rightarrow> False | Inr b \<Rightarrow> b),
                   snd (tiff_fallback w d i out p q s1)))"
  unfolding extract_page_def s1_def
  by (cases "subprocess_run_render w (png_cmd d i out p q) s")
     (auto simp: subprocess_run_render_def split: sum.splits prod.splits)

lemma tiff_fallback_True:
  assumes tf: "tiff_fallback w d i out p q s = (Inr True, s')"
  shows "\<exists>pr c. run w (tiff_cmd d i out p q) = Inr pr \<and> returncode pr = 0
           \<and> exists (snd (subprocess_run_render w (tiff_cmd d i out p q) s)) (replace out ''.png'' ''.tiff'')
           \<and> out \<noteq> []
           \<and> (\<forall>x. loc s' x = loc s x)
           \<and> (\<forall>x. lookup s' x =
                 (if loc s x = loc s (replace out ''.png'' ''.tiff'') then None
                  else if loc s x = loc s out then Some (File (Resaved c out))
                  else lookup s x))"
proof -
  let ?t = "replace out ''.png'' ''.tiff''"
  let ?s1 = "snd (subprocess_run_render w (tiff_cmd d i out p q) s)"
  from tiff_fallback_cases[of w d i out p q s] tf
  obtain pr s2 where pr: "run w (tiff_cmd d i out p q) = Inr pr" "returncode pr = 0" "exists ?s1 ?t"
    and pil: "pil_resave w ?t out ?s1 = Inr s2" and rm: "os_remove w ?t s2 = Inr s'"
    by auto
  from pil_resave_lookup[OF pil] obtain c where c: "lookup ?s1 ?t = Some (File c)"
    and l2: "\<And>x. lookup s2 x = (if loc ?s1 x = loc ?s1 out then Some (File (Resaved c out)) else lookup ?s1 x)"
    by blast
  have loc2: "\<And>x. loc s2 x = loc s x" using pil_resave_loc[OF pil] by simp
  have loc3: "\<And>x. loc s' x = loc s x" using os_remove_loc[OF rm] loc2 by simp
  have ne: "out \<noteq> []" using pr(3) by (auto simp: exists_def replace_Nil)
  have "\<And>x. lookup s' x =
                 (if loc s x = loc s ?t then None
                  else if loc s x = loc s out then Some (File (Resaved c out))
                  else lookup s x)"
    using os_remove_lookup[OF rm] l2 loc2 by (simp add: lookup_render)
  with pr ne loc3 show ?thesis by blast
qed

text \<open>
  C4: for every invocation whose TIFF sibling path names another place than the
  output path (as for every path with \<open>.png\<close> in its last component, such as the
  \<open>page_NNNN.png\<close> the converter passes), the result is success only if the target
  file exists on disk after the call; and a success always comes from an attempt that
  both exited with status 0 and left its file on disk, the target after the first
  attempt or the TIFF sibling after the second: an exit status 0 with no file is never
  enough, on either attempt.
\<close>

theorem extract_page_success_exists:
  assumes "loc s (replace output_file ''.png'' ''.tiff'') \<noteq> loc s output_file"
  shows "fst (extract_page w ddjvu_path input_file output_file page quality s) \<longrightarrow>
           exists (snd (extract_page w ddjvu_path input_file output_file page quality s)) output_file
           \<and> ((\<exists>p1. run w (png_cmd ddjvu_path input_file output_file page quality) = Inr p1
                  \<and> returncode p1 = 0
                  \<and> exists (snd (subprocess_run_render w
                               (png_cmd ddjvu_path input_file output_file page quality) s)) output_file)
              \<or> (\<exists>p1 p2. run w (png_cmd ddjvu_path input_file output_file page quality) = Inr p1
                  \<and> run w (tiff_cmd ddjvu_path input_file output_file page quality) = Inr p2
                  \<and> returncode p2 = 0
                  \<and> exists (snd (subprocess_run_render w
                               (tiff_cmd ddjvu_path input_file output_file page quality)
                               (snd (subprocess_run_render w
                                  (png_cmd ddjvu_path input_file output_file page quality) s))))
                       (replace output_file ''.png'' ''.tiff'')))"
proof
  let ?png = "png_cmd ddjvu_path input_file output_file page quality"
  let ?tiff = "tiff_cmd ddjvu_path input_file output_file page quality"
  let ?t = "replace output_file ''.png'' ''.tiff''"
  let ?r = "extract_page w ddjvu_path input_file output_file page quality s"
  let ?s1 = "snd (subprocess_run_render w ?png s)"
  let ?tf = "tiff_fallback w ddjvu_path input_file output_file page quality ?s1"
  assume t: "fst ?r"
  from extract_page_cases[of w ddjvu_path input_file output_file page quality s]
  consider (primary) pr where "run w ?png = Inr pr" "returncode pr = 0" "exists ?s1 output_file" "?r = (True, ?s1)"
    | (fallback) pr where "run w ?png = Inr pr"
        "?r = ((case fst ?tf of Inl e \<Rightarrow> False | Inr b \<Rightarrow> b), snd ?tf)"
    using t by auto
  then show "exists (snd ?r) output_file
           \<and> ((\<exists>p1. run w ?png = Inr p1 \<and> returncode p1 = 0 \<and> exists ?s1 output_file)
              \<or> (\<exists>p1 p2. run w ?png = Inr p1 \<and> run w ?tiff = Inr p2 \<and> returncode p2 = 0
                  \<and> exists (snd (subprocess_run_render w ?tiff ?s1)) ?t))"
  proof cases
    case primary
    then show ?thesis by auto
  next
    case fallback
    with t have "fst ?tf = Inr True" by (auto split: sum.splits)
    then have tf: "?tf = (Inr True, snd ?r)" using fallback(2) by (cases ?tf) simp
    from tiff_fallback_True[OF tf] obtain p2 c where p2: "run w ?tiff = Inr p2" "returncode p2 = 0"
      "exists (snd (subprocess_run_render w ?tiff ?s1)) ?t" "output_file \<noteq> []"
      and l: "\<And>x. lookup (snd ?r) x =
                 (if loc ?s1 x = loc ?s1 ?t then None
                  else if loc ?s1 x = loc ?s1 output_file then Some (File (Resaved c output_file))
                  else lookup ?s1 x)"
      by blast
    have "exists (snd ?r) output_file"
      using l[of output_file] assms p2(4) by (simp add: exists_def)
    with p2 fallback(1) show ?thesis by blast
  qed
qed

lemma abs_comps_page_png: "abs_comps ''/work'' ''page.png'' = [''work'', ''page.png'']"
  by (simp add: abs_comps_def path_join_def startswith_def endswith_def sep_def norm_step_def)

lemma abs_comps_page_tiff: "abs_comps ''/work'' ''page.tiff'' = [''work'', ''page.tiff'']"
  by (simp add: abs_comps_def path_join_def startswith_def endswith_def sep_def norm_step_def)

lemmas run_defs = extract_page_def tiff_fallback_def subprocess_run_render_def pil_resave_def
  os_remove_def write_file_def exists_def lookup_def loc_def png_cmd_def tiff_cmd_def Let_def

theorem extract_page_success_exists_witness:
  "loc empty_sys (replace ''page.png'' ''.png'' ''.tiff'') \<noteq> loc empty_sys ''page.png''
   \<and> fst (extract_page fallback_world ''ddjvu'' ''book.djvu'' ''page.png'' 1 85 empty_sys)
   \<and> exists (snd (extract_page fallback_world ''ddjvu'' ''book.djvu'' ''page.png'' 1 85 empty_sys)) ''page.png''"
proof -
  have e: "loc empty_sys (replace ''page.png'' ''.png'' ''.tiff'') \<noteq> loc empty_sys ''page.png''"
    by (simp add: replace_page_png loc_def empty_sys_def abs_comps_page_png abs_comps_page_tiff)
  have t: "fst (extract_page fallback_world ''ddjvu'' ''book.djvu'' ''page.png'' 1 85 empty_sys)"
    by (simp add: run_defs fallback_world_def no_tools_def empty_sys_def replace_page_png
        abs_comps_page_png abs_comps_page_tiff)
  show ?thesis
    using e t
      extract_page_success_exists [OF e, of fallback_world "''ddjvu''" "''book.djvu''" 1 85]
    by blast
qed

lemma tiff_fallback_TrueI:
  assumes "run w (tiff_cmd d i out p q) = Inr p2" "returncode p2 = 0" "creates w (tiff_cmd d i out p q)"
    "pil_ok w (replace out ''.png'' ''.tiff'') out" "remove_ok w (replace out ''.png'' ''.tiff'')"
    "loc s (replace out ''.png'' ''.tiff'') \<noteq> loc s out" "replace out ''.png'' ''.tiff'' \<noteq> []"
  shows "fst (tiff_fallback w d i out p q s) = Inr True"
  using assms unfolding tiff_fallback_def
  by (simp add: subprocess_run_render_def pil_resave_def os_remove_def exists_def lookup_def
      write_file_def update_conv' Let_def loc_def)

text \<open>
  C5, amended: for every invocation whose TIFF sibling path names another place than
  the output path, if the first attempt completes without success (another status, or
  no file at the target), the second rendering succeeds (status 0, the TIFF file
  written), and neither the re-encoding nor the removal of the TIFF file raises, then
  the function returns \<open>True\<close>, the target holds the re-encoded image, a PNG image
  when the path has the extension \<open>.png\<close>, and no file remains at the TIFF path. And
  on every success, no place other than the target exists afterwards that did not
  exist before.
\<close>

theorem extract_page_fallback:
  assumes "loc s (replace output_file ''.png'' ''.tiff'') \<noteq> loc s output_file"
  shows "((\<exists>p1 p2. run w (png_cmd ddjvu_path input_file output_file page quality) = Inr p1
              \<and> (returncode p1 \<noteq> 0
                  \<or> \<not> exists (snd (subprocess_run_render w
                                 (png_cmd ddjvu_path input_file output_file page quality) s)) output_file)
              \<and> run w (tiff_cmd ddjvu_path input_file output_file page quality) = Inr p2
              \<and> returncode p2 = 0)
            \<and> creates w (tiff_cmd ddjvu_path input_file output_file page quality)
            \<and> pil_ok w (replace output_file ''.png'' ''.tiff'') output_file
            \<and> remove_ok w (replace output_file ''.png'' ''.tiff'')
          \<longrightarrow> fst (extract_page w ddjvu_path input_file output_file page quality s)
              \<and> (\<exists>c. lookup (snd (extract_page w ddjvu_path input_file output_file page quality s))
                         output_file = Some (File c)
                       \<and> (is_png c \<longleftrightarrow> endswith (lower output_file) ''.png''))
              \<and> \<not> exists (snd (extract_page w ddjvu_path input_file output_file page quality s))
                          (replace output_file ''.png'' ''.tiff''))
       \<and> (fst (extract_page w ddjvu_path input_file output_file page quality s) \<longrightarrow>
            (\<forall>x. loc s x \<noteq> loc s output_file
                  \<and> exists (snd (extract_page w ddjvu_path input_file output_file page quality s)) x
               \<longrightarrow> exists s x))"
proof (intro conjI impI allI)
  let ?png = "png_cmd ddjvu_path input_file output_file page quality"
  let ?tiff = "tiff_cmd ddjvu_path input_file output_file page quality"
  let ?t = "replace output_file ''.png'' ''.tiff''"
  let ?r = "extract_page w ddjvu_path input_file output_file page quality s"
  let ?s1 = "snd (subprocess_run_render w ?png s)"
  let ?tf = "tiff_fallback w ddjvu_path input_file output_file page quality ?s1"
  have out: "output_file \<noteq> []" using assms by (auto simp: replace_Nil)
  then have t: "?t \<noteq> []"
    using replace_length_ge[of "''.png''" "''.tiff''" output_file] by auto
  {
    assume a: "(\<exists>p1 p2. run w ?png = Inr p1
              \<and> (returncode p1 \<noteq> 0 \<or> \<not> exists ?s1 output_file)
              \<and> run w ?tiff = Inr p2 \<and> returncode p2 = 0)
            \<and> creates w ?tiff \<and> pil_ok w ?t output_file \<and> remove_ok w ?t"
    then obtain p1 p2 where p: "run w ?png = Inr p1"
       "returncode p1 \<noteq> 0 \<or> \<not> exists ?s1 output_file"
       "run w ?tiff = Inr p2" "returncode p2 = 0" by blast
    have ft: "fst ?tf = Inr True"
      using tiff_fallback_TrueI[OF p(3,4), of ?s1] a assms t by simp
    then have tf: "?tf = (Inr True, snd ?tf)" by (cases ?tf) simp
    from extract_page_cases[of w ddjvu_path input_file output_file page quality s] p(1,2)
    have r: "?r = (True, snd ?tf)" by (auto simp: ft)
    from tiff_fallback_True[OF tf] obtain c where
      l: "\<And>x. lookup (snd ?tf) x =
                 (if loc ?s1 x = loc ?s1 ?t then None
                  else if loc ?s1 x = loc ?s1 output_file then Some (File (Resaved c output_file))
                  else lookup ?s1 x)"
      by blast
    show "fst ?r" using r by simp
    show "\<exists>c. lookup (snd ?r) output_file = Some (File c)
             \<and> (is_png c \<longleftrightarrow> endswith (lower output_file) ''.png'')"
      using l[of output_file] assms by (simp add: r is_png_def)
    show "\<not> exists (snd ?r) ?t" using l[of ?t] by (simp add: r exists_def)
  }
  fix x
  assume f: "fst ?r" and x: "loc s x \<noteq> loc s output_file \<and> exists (snd ?r) x"
  from extract_page_cases[of w ddjvu_path input_file output_file page quality s]
  consider (primary) "?r = (True, ?s1)"
    | (fallback) "?r = ((case fst ?tf of Inl e \<Rightarrow> False | Inr b \<Rightarrow> b), snd ?tf)"
    using f by auto
  then show "exists s x"
  proof cases
    case primary
    then show ?thesis using x by (auto simp: exists_def lookup_render split: if_splits)
  next
    case fallback
    with f have "fst ?tf = Inr True" by (auto split: sum.splits)
    then have tf: "?tf = (Inr True, snd ?r)" using fallback by (cases ?tf) simp
    from tiff_fallback_True[OF tf] obtain c where
      l: "\<And>x. lookup (snd ?r) x =
                 (if loc ?s1 x = loc ?s1 ?t then None
                  else if loc ?s1 x = loc ?s1 output_file then Some (File (Resaved c output_file))
                  else lookup ?s1 x)"
      by blast
    show ?thesis using x l[of x]
      by (auto simp: exists_def lookup_render split: if_splits)
  qed
qed

text \<open>
  C5, as stated: whenever the first rendering fails and the second succeeds, the
  function returns success and no TIFF file remains. It does not when the
  re-encoding raises, or when the removal of the TIFF file raises: the \<open>except\<close>
  clause returns \<open>False\<close> and the TIFF file stays on disk.
\<close>

theorem extract_page_fallback_counterexample:
  "run broken_pil_world (png_cmd ''ddjvu'' ''book.djvu'' ''page.png'' 1 85) = Inr \<lparr>returncode = 0, stdout = []\<rparr>
   \<and> \<not> creates broken_pil_world (png_cmd ''ddjvu'' ''book.djvu'' ''page.png'' 1 85)
   \<and> run broken_pil_world (tiff_cmd ''ddjvu'' ''book.djvu'' ''page.png'' 1 85) = Inr \<lparr>returncode = 0, stdout = []\<rparr>
   \<and> creates broken_pil_world (tiff_cmd ''ddjvu'' ''book.djvu'' ''page.png'' 1 85)
   \<and> \<not> fst (extract_page broken_pil_world ''ddjvu'' ''book.djvu'' ''page.png'' 1 85 empty_sys)
   \<and> exists (snd (extract_page broken_pil_world ''ddjvu'' ''book.djvu'' ''page.png'' 1 85 empty_sys)) ''page.tiff''
   \<and> \<not> exists (snd (extract_page broken_pil_world ''ddjvu'' ''book.djvu'' ''page.png'' 1 85 empty_sys)) ''page.png''
   \<and> run locked_tiff_world (png_cmd ''ddjvu'' ''book.djvu'' ''page.png'' 1 85) = Inr \<lparr>returncode = 0, stdout = []\<rparr>
   \<and> \<not> creates locked_tiff_world (png_cmd ''ddjvu'' ''book.djvu'' ''page.png'' 1 85)
   \<and> run locked_tiff_world (tiff_cmd ''ddjvu'' ''book.djvu'' ''page.png'' 1 85) = Inr \<lparr>returncode = 0, stdout = []\<rparr>
   \<and> creates locked_tiff_world (tiff_cmd ''ddjvu'' ''book.djvu'' ''page.png'' 1 85)
   \<and> \<not> fst (extract_page locked_tiff_world ''ddjvu'' ''book.djvu'' ''page.png'' 1 85 empty_sys)
   \<and> exists (snd (extract_page locked_tiff_world ''ddjvu'' ''book.djvu'' ''page.png'' 1 85 empty_sys)) ''page.tiff''"
  by (simp add: run_defs fallback_world_def broken_pil_world_def locked_tiff_world_def no_tools_def
      empty_sys_def replace_page_png abs_comps_page_png abs_comps_page_tiff)

theorem extract_page_fallback_witness:
  "loc empty_sys (replace ''page.png'' ''.png'' ''.tiff'') \<noteq> loc empty_sys ''page.png''
   \<and> fst (extract_page fallback_world ''ddjvu'' ''book.djvu'' ''page.png'' 2 85 empty_sys)
   \<and> (\<exists>c. lookup (snd (extract_page fallback_world ''ddjvu'' ''book.djvu'' ''page.png'' 2 85 empty_sys))
              ''page.png'' = Some (File c) \<and> is_png c)
   \<and> \<not> exists (snd (extract_page fallback_world ''ddjvu'' ''book.djvu'' ''page.png'' 2 85 empty_sys)) ''page.tiff''"
proof -
  have e: "loc empty_sys (replace ''page.png'' ''.png'' ''.tiff'') \<noteq> loc empty_sys ''page.png''"
    by (simp add: replace_page_png loc_def empty_sys_def abs_comps_page_png abs_comps_page_tiff)
  have l: "endswith (lower ''page.png'') ''.png''"
    by (simp add: endswith_def lower_def lower_char_def)
  have h: "(\<exists>p1 p2. run fallback_world (png_cmd ''ddjvu'' ''book.djvu'' ''page.png'' 2 85) = Inr p1
              \<and> (returncode p1 \<noteq> 0
                  \<or> \<not> exists (snd (subprocess_run_render fallback_world
                                 (png_cmd ''ddjvu'' ''book.djvu'' ''page.png'' 2 85) empty_sys)) ''page.png'')
              \<and> run fallback_world (tiff_cmd ''ddjvu'' ''book.djvu'' ''page.png'' 2 85) = Inr p2
              \<and> returncode p2 = 0)
            \<and> creates fallback_world (tiff_cmd ''ddjvu'' ''book.djvu'' ''page.png'' 2 85)
            \<and> pil_ok fallback_world (replace ''page.png'' ''.png'' ''.tiff'') ''page.png''
            \<and> remove_ok fallback_world (replace ''page.png'' ''.png'' ''.tiff'')"
    by (simp add: run_defs fallback_world_def no_tools_def empty_sys_def)
  note c = extract_page_fallback [OF e, of fallback_world "''ddjvu''" "''book.djvu''" 2 85,
      THEN conjunct1, THEN mp, OF h]
  show ?thesis
    using e l c unfolding replace_page_png by blast
qed

end
